theory Spec2Isabelle
  imports Main "HOL-Library.Word" "HOL-Library.Sublist"
begin

section \<open>JavaScript strings\<close>

text \<open>
  The repository holds two Node scripts: \<^verbatim>\<open>login.js\<close> (the Session Capturer) and
  \<^verbatim>\<open>svg_downloader.js\<close> (the Batch Fetcher). A JavaScript string is a sequence of
  UTF-16 code units, so it is modelled as a list of 16-bit words. \<open>js\<close> turns an ASCII
  literal into code units; the emoji of the console messages are written as their code
  units (surrogate pairs for the astral ones).
\<close>

type_synonym jsstring = "16 word list"

definition js :: "string \<Rightarrow> jsstring" where
  "js s = map of_char s"

text \<open>
  \<^verbatim>\<open>String.prototype.trim\<close> removes leading and trailing WhiteSpace and LineTerminator
  code points (ECMAScript): TAB, LF, VT, FF, CR, SPACE, NBSP, U+1680, U+2000..U+200A,
  U+2028, U+2029, U+202F, U+205F, U+3000 and U+FEFF.
\<close>

definition is_ws :: "16 word \<Rightarrow> bool" where
  "is_ws c = (c = 0x09 \<or> c = 0x0A \<or> c = 0x0B \<or> c = 0x0C \<or> c = 0x0D \<or> c = 0x20
     \<or> c = 0xA0 \<or> c = 0x1680 \<or> (0x2000 \<le> c \<and> c \<le> 0x200A) \<or> c = 0x2028 \<or> c = 0x2029
     \<or> c = 0x202F \<or> c = 0x205F \<or> c = 0x3000 \<or> c = 0xFEFF)"

definition trim :: "jsstring \<Rightarrow> jsstring" where
  "trim s = rev (dropWhile is_ws (rev (dropWhile is_ws s)))"

text \<open>\<^verbatim>\<open>s.includes(t)\<close>: \<open>t\<close> occurs in \<open>s\<close> as a contiguous run of code units.\<close>

fun js_includes :: "jsstring \<Rightarrow> jsstring \<Rightarrow> bool" where
  "js_includes [] t = (t = [])"
| "js_includes (c # s) t = (prefix t (c # s) \<or> js_includes s t)"

section \<open>Data model\<close>

text \<open>
  A cookie record as Puppeteer's \<^verbatim>\<open>page.cookies()\<close> returns it. The scripts read only
  \<open>domain\<close>; the other fields are carried along unread.
\<close>

record cookie =
  name :: jsstring
  cookie_value :: jsstring
  domain :: jsstring
  path :: jsstring
  httpOnly :: bool
  secure :: bool

text \<open>
  A manifest row as \<^verbatim>\<open>csv-parser\<close> emits it: an object from header names to cell
  texts. A property that is not there reads as \<^verbatim>\<open>undefined\<close>, here \<open>None\<close>.
\<close>

type_synonym row = "jsstring \<rightharpoonup> jsstring"

text \<open>
  A thrown value, with the text its \<^verbatim>\<open>message\<close> property prints as. \<open>Error\<close> is an
  error object raised by the script or by a library call, \<open>TypeError\<close> the engine's
  error for reading a property of \<^verbatim>\<open>undefined\<close>.
\<close>

datatype js_error = Error jsstring | TypeError jsstring

fun message :: "js_error \<Rightarrow> jsstring" where
  "message (Error m) = m"
| "message (TypeError m) = m"

text \<open>
  The effects a run leaves behind, in the order they happen: a navigation requested with
  \<^verbatim>\<open>page.goto\<close>, a file written by \<^verbatim>\<open>fs.writeFileSync\<close>, a text appended by
  \<^verbatim>\<open>fs.appendFileSync\<close>.
\<close>

datatype event = Goto jsstring | Wrote jsstring | Appended jsstring

text \<open>
  The state the scripts act on: the regular files (path to content), the directories,
  the lines printed so far (\<^verbatim>\<open>console.log\<close> and \<^verbatim>\<open>console.error\<close> alike), whether
  a browser launched by the script is open, the cookies injected into the page, the
  trace of effects, and the error that ended the process outside any handler, if one did.
\<close>

record world =
  files :: "jsstring \<rightharpoonup> jsstring"
  dirs :: "jsstring set"
  console :: "jsstring list"
  browser_open :: bool
  jar :: "cookie list"
  trace :: "event list"
  uncaught :: "js_error option"

text \<open>
  What the scripts call but do not define: the browser, the network, the clock and the
  Node library. Each is a parameter. A call that can throw yields its error; calls whose
  outcome changes from one call to the next take the number of effects so far as their
  moment. A write or an append that throws leaves the file as it was.
  \<^verbatim>\<open>fs.mkdirSync\<close>, \<^verbatim>\<open>browser.close\<close> and the console are taken to succeed; the
  fixed waits (\<^verbatim>\<open>setTimeout\<close>) have no effect on the state. \<open>csv_parse\<close> is the
  parser of the manifest, which yields all rows or emits an error; \<open>read_error\<close> is the
  system error of reading a path that is not a file, \<open>dir_error\<close> that of writing to a
  path that is a directory; \<open>write_error\<close> and \<open>append_error\<close> are the other ways
  \<^verbatim>\<open>fs.writeFileSync\<close> and \<^verbatim>\<open>fs.appendFileSync\<close> throw; \<open>inspect\<close> is the console's
  rendering of an array, and \<open>path_resolve_dirname\<close> is \<^verbatim>\<open>path.resolve(__dirname, _)\<close>.
\<close>

record env =
  csv_parse :: "jsstring \<Rightarrow> js_error + row list"
  read_error :: "jsstring \<Rightarrow> js_error"
  dir_error :: "jsstring \<Rightarrow> js_error"
  launch :: "js_error option"
  newPage :: "js_error option"
  page_goto :: "nat \<Rightarrow> jsstring \<Rightarrow> js_error option"
  page_content :: "nat \<Rightarrow> js_error + jsstring"
  page_cookies :: "nat \<Rightarrow> js_error + cookie list"
  page_setCookie :: "cookie list \<Rightarrow> js_error option"
  JSON_parse :: "jsstring \<Rightarrow> js_error + cookie list"
  JSON_stringify :: "cookie list \<Rightarrow> jsstring"
  inspect :: "cookie list \<Rightarrow> jsstring"
  write_error :: "nat \<Rightarrow> jsstring \<Rightarrow> js_error option"
  append_error :: "nat \<Rightarrow> jsstring \<Rightarrow> js_error option"
  toISOString :: "nat \<Rightarrow> jsstring"
  path_join :: "jsstring \<Rightarrow> jsstring \<Rightarrow> jsstring"
  path_resolve_dirname :: "jsstring \<Rightarrow> jsstring"

text \<open>
  The outcome of an asynchronous function: the state it leaves, and the error it
  rejected with, if any.
\<close>

type_synonym outcome = "js_error option \<times> world"

section \<open>File system\<close>

definition now :: "world \<Rightarrow> nat" where
  "now w = length (trace w)"

definition existsSync :: "world \<Rightarrow> jsstring \<Rightarrow> bool" where
  "existsSync w p = (files w p \<noteq> None \<or> p \<in> dirs w)"

definition readFileSync :: "env \<Rightarrow> world \<Rightarrow> jsstring \<Rightarrow> js_error + jsstring" where
  "readFileSync e w p = (case files w p of None \<Rightarrow> Inl (read_error e p) | Some c \<Rightarrow> Inr c)"

definition writeFileSync :: "env \<Rightarrow> jsstring \<Rightarrow> jsstring \<Rightarrow> world \<Rightarrow> outcome" where
  "writeFileSync e p c w =
     (if p \<in> dirs w then (Some (dir_error e p), w)
      else
        (case write_error e (now w) p of
           Some err \<Rightarrow> (Some err, w)
         | None \<Rightarrow> (None, w\<lparr>files := (files w)(p \<mapsto> c), trace := trace w @ [Wrote p]\<rparr>)))"

definition file_text :: "world \<Rightarrow> jsstring \<Rightarrow> jsstring" where
  "file_text w p = (case files w p of None \<Rightarrow> [] | Some c \<Rightarrow> c)"

definition appendFileSync :: "env \<Rightarrow> jsstring \<Rightarrow> jsstring \<Rightarrow> world \<Rightarrow> outcome" where
  "appendFileSync e p c w =
     (if p \<in> dirs w then (Some (dir_error e p), w)
      else
        (case append_error e (now w) p of
           Some err \<Rightarrow> (Some err, w)
         | None \<Rightarrow>
             (None, w\<lparr>files := (files w)(p \<mapsto> file_text w p @ c),
                       trace := trace w @ [Appended p]\<rparr>)))"

definition mkdirSync :: "jsstring \<Rightarrow> world \<Rightarrow> world" where
  "mkdirSync p w = w\<lparr>dirs := insert p (dirs w)\<rparr>"

definition console_log :: "jsstring \<Rightarrow> world \<Rightarrow> world" where
  "console_log s w = w\<lparr>console := console w @ [s]\<rparr>"

section \<open>login.js: the Session Capturer\<close>

text \<open>The two literals of the script: the address of the login page and the filter's text.\<close>

definition LOGIN_URL :: jsstring where
  "LOGIN_URL = js ''https://simplywall.st/login''"

definition TARGET_DOMAIN :: jsstring where
  "TARGET_DOMAIN = js ''simplywall.st''"

text \<open>\<^verbatim>\<open>cookies.filter(c => c.domain.includes('simplywall.st'))\<close>\<close>

definition sessionCookies :: "cookie list \<Rightarrow> cookie list" where
  "sessionCookies cookies = filter (\<lambda>c. js_includes (domain c) TARGET_DOMAIN) cookies"

text \<open>
  The script's one asynchronous function. It has no handler: an error of any awaited call
  rejects it, and nothing after that call runs.
\<close>

definition login_main :: "env \<Rightarrow> world \<Rightarrow> outcome" where
  "login_main e w =
     (case launch e of
        Some err \<Rightarrow> (Some err, w)
      | None \<Rightarrow>
          let w1 = w\<lparr>browser_open := True\<rparr> in
          (case newPage e of
             Some err \<Rightarrow> (Some err, w1)
           | None \<Rightarrow>
               let w2 = w1\<lparr>trace := trace w1 @ [Goto LOGIN_URL]\<rparr> in
               (case page_goto e (now w1) LOGIN_URL of
                  Some err \<Rightarrow> (Some err, w2)
                | None \<Rightarrow>
                    let w3 = console_log ([0xD83E, 0xDDD1, 0x200D, 0xD83D, 0xDCBB]
                                @ js '' Please log in manually in the opened browser...'') w2;
                        w4 = console_log ([0x23F3]
                                @ js '' Waiting 30 seconds for login and session to persist...'') w3
                    in
                    (case page_cookies e (now w4) of
                       Inl err \<Rightarrow> (Some err, w4)
                     | Inr cookies \<Rightarrow>
                         let sc = sessionCookies cookies;
                             w5 = console_log ([0xD83C, 0xDF6A]
                                    @ js '' Simply Wall Street session cookies: '' @ inspect e sc) w4;
                             cookiePath = path_resolve_dirname e (js ''cookies.json'')
                         in
                         (case writeFileSync e cookiePath (JSON_stringify e sc) w5 of
                            (Some err, w6) \<Rightarrow> (Some err, w6)
                          | (None, w6) \<Rightarrow>
                              let w7 = console_log ([0x2705]
                                         @ js '' Saved session cookies to '' @ cookiePath) w6
                              in (None, w7\<lparr>browser_open := False\<rparr>))))))"

section \<open>svg_downloader.js: the Batch Fetcher\<close>

definition CSV_FILE :: jsstring where
  "CSV_FILE = js ''snowflake_chart.csv''"

definition COOKIES_FILE :: jsstring where
  "COOKIES_FILE = js ''cookies.json''"

definition HTML_DUMP_FOLDER :: jsstring where
  "HTML_DUMP_FOLDER = js ''html_dump''"

definition BASE_URL :: jsstring where
  "BASE_URL = js ''https://simplywall.st''"

definition ERROR_LOG :: jsstring where
  "ERROR_LOG = js ''errors.log''"

text \<open>
  How the promise of \<^verbatim>\<open>readCSV\<close> ends. The manifest file is piped through the parser
  into an array; the promise resolves with the whole array at the parser's end and
  rejects with an error the parser emits. \<^verbatim>\<open>pipe\<close> returns the parser, so the
  \<^verbatim>\<open>error\<close> listener is on the parser only: an error of the file stream itself (the
  file is not there) has no listener, is thrown out of the event loop and ends the
  process, and the promise never settles. The rows of a run are therefore all there, or
  the run has no rows at all.
\<close>

datatype csv_result = Resolved "row list" | Rejected js_error | Uncaught js_error

definition readCSV :: "env \<Rightarrow> world \<Rightarrow> csv_result" where
  "readCSV e w =
     (case files w CSV_FILE of
        None \<Rightarrow> Uncaught (read_error e CSV_FILE)
      | Some text \<Rightarrow>
          (case csv_parse e text of
             Inl err \<Rightarrow> Rejected err
           | Inr rows \<Rightarrow> Resolved rows))"

definition COOKIES_NOT_FOUND :: jsstring where
  "COOKIES_NOT_FOUND =
     js ''Cookies file '' @ [0x22] @ COOKIES_FILE @ [0x22] @ js '' not found. Run login.js first.''"

definition applyCookies :: "env \<Rightarrow> world \<Rightarrow> outcome" where
  "applyCookies e w =
     (if \<not> existsSync w COOKIES_FILE then (Some (Error COOKIES_NOT_FOUND), w)
      else
        (case readFileSync e w COOKIES_FILE of
           Inl err \<Rightarrow> (Some err, w)
         | Inr cookieData \<Rightarrow>
             (case JSON_parse e cookieData of
                Inl err \<Rightarrow> (Some err, w)
              | Inr cookies \<Rightarrow>
                  (case page_setCookie e cookies of
                     Some err \<Rightarrow> (Some err, w)
                   | None \<Rightarrow>
                       (None, console_log ([0xD83C, 0xDF6A] @ js '' Cookies applied'')
                                (w\<lparr>jar := jar w @ cookies\<rparr>))))))"

definition logError :: "env \<Rightarrow> jsstring \<Rightarrow> jsstring \<Rightarrow> world \<Rightarrow> outcome" where
  "logError e ticker error w =
     (let logMsg = toISOString e (now w) @ js '' | '' @ ticker @ js '' | '' @ error @ [0x0A]
      in appendFileSync e ERROR_LOG logMsg w)"

text \<open>The \<^verbatim>\<open>try\<close> block of the loop body: the first call that throws ends it.\<close>

definition try_dump :: "env \<Rightarrow> jsstring \<Rightarrow> jsstring \<Rightarrow> world \<Rightarrow> outcome" where
  "try_dump e ticker fullUrl w =
     (let w1 = console_log ([0xD83C, 0xDF10] @ js '' Visiting '' @ fullUrl) w;
          w2 = w1\<lparr>trace := trace w1 @ [Goto fullUrl]\<rparr>
      in
      (case page_goto e (now w1) fullUrl of
         Some err \<Rightarrow> (Some err, w2)
       | None \<Rightarrow>
           (case page_content e (now w2) of
              Inl err \<Rightarrow> (Some err, w2)
            | Inr htmlContent \<Rightarrow>
                let htmlPath = path_join e HTML_DUMP_FOLDER (ticker @ js ''.html'') in
                (case writeFileSync e htmlPath htmlContent w2 of
                   (Some err, w3) \<Rightarrow> (Some err, w3)
                 | (None, w3) \<Rightarrow>
                     (None, console_log ([0xD83D, 0xDCDD] @ js '' HTML dumped for '' @ ticker) w3)))))"

text \<open>The message of the engine's error for \<^verbatim>\<open>undefined.trim()\<close>, in V8's wording.\<close>

definition TRIM_OF_UNDEFINED :: jsstring where
  "TRIM_OF_UNDEFINED = js ''Cannot read properties of undefined (reading 'trim')''"

text \<open>
  One iteration of the loop. The two cells are read and trimmed before the \<^verbatim>\<open>try\<close>:
  a missing cell throws out of the iteration. An error inside the \<^verbatim>\<open>try\<close> is caught,
  printed and logged; the iteration then ends normally, unless \<^verbatim>\<open>logError\<close> throws in
  its turn: nothing catches that, and it leaves the iteration.
\<close>

definition dump_row :: "env \<Rightarrow> row \<Rightarrow> world \<Rightarrow> outcome" where
  "dump_row e r w =
     (case r (js ''tickers'') of
        None \<Rightarrow> (Some (TypeError TRIM_OF_UNDEFINED), w)
      | Some t \<Rightarrow>
          let ticker = trim t in
          (case r (js ''canonical_url'') of
             None \<Rightarrow> (Some (TypeError TRIM_OF_UNDEFINED), w)
           | Some p \<Rightarrow>
               let pathUrl = trim p;
                   fullUrl = BASE_URL @ pathUrl
               in
               (case try_dump e ticker fullUrl w of
                  (None, w') \<Rightarrow> (None, w')
                | (Some err, w') \<Rightarrow>
                    logError e ticker (message err)
                      (console_log ([0x274C] @ js '' Error dumping '' @ ticker @ js '': ''
                                      @ message err) w'))))"

text \<open>\<^verbatim>\<open>for (const row of rows)\<close>: an error out of an iteration ends the loop.\<close>

fun dump_rows :: "env \<Rightarrow> row list \<Rightarrow> world \<Rightarrow> outcome" where
  "dump_rows e [] w = (None, w)"
| "dump_rows e (r # rows) w =
     (case dump_row e r w of
        (Some err, w') \<Rightarrow> (Some err, w')
      | (None, w') \<Rightarrow> dump_rows e rows w')"

definition dumpHTML :: "env \<Rightarrow> row list \<Rightarrow> world \<Rightarrow> outcome" where
  "dumpHTML e rows w =
     (case launch e of
        Some err \<Rightarrow> (Some err, w)
      | None \<Rightarrow>
          let w1 = w\<lparr>browser_open := True\<rparr> in
          (case newPage e of
             Some err \<Rightarrow> (Some err, w1)
           | None \<Rightarrow>
               (case applyCookies e w1 of
                  (Some err, w2) \<Rightarrow> (Some err, w2)
                | (None, w2) \<Rightarrow>
                    let w3 = (if \<not> existsSync w2 HTML_DUMP_FOLDER
                              then mkdirSync HTML_DUMP_FOLDER w2 else w2)
                    in
                    (case dump_rows e rows w3 of
                       (Some err, w4) \<Rightarrow> (Some err, w4)
                     | (None, w4) \<Rightarrow>
                         (None, console_log ([0x2705] @ js '' All HTML files created'')
                                  (w4\<lparr>browser_open := False\<rparr>))))))"

text \<open>
  The script's main function catches whatever \<^verbatim>\<open>readCSV\<close> or \<^verbatim>\<open>dumpHTML\<close>
  rejects with and prints it; it has no result of its own. When the file stream's error
  ends the process, nothing of it runs any further.
\<close>

definition fatal :: "js_error \<Rightarrow> world \<Rightarrow> world" where
  "fatal err w = console_log ([0xD83D, 0xDEA8] @ js '' Fatal error: '' @ message err) w"

definition main :: "env \<Rightarrow> world \<Rightarrow> world" where
  "main e w =
     (case readCSV e w of
        Uncaught err \<Rightarrow> w\<lparr>uncaught := Some err\<rparr>
      | Rejected err \<Rightarrow> fatal err w
      | Resolved tickers \<Rightarrow>
          (case dumpHTML e tickers w of
             (Some err, w') \<Rightarrow> fatal err w'
           | (None, w') \<Rightarrow> w'))"

section \<open>Notions the properties are stated with\<close>

text \<open>
  A row has the two cells the loop reads; the identifier and the address the loop
  derives from them; the path of the identifier's output file.
\<close>

definition has_cells :: "row \<Rightarrow> bool" where
  "has_cells r = (r (js ''tickers'') \<noteq> None \<and> r (js ''canonical_url'') \<noteq> None)"

definition ticker_of :: "row \<Rightarrow> jsstring" where
  "ticker_of r = trim (the (r (js ''tickers'')))"

definition fullUrl_of :: "row \<Rightarrow> jsstring" where
  "fullUrl_of r = BASE_URL @ trim (the (r (js ''canonical_url'')))"

definition htmlPath_of :: "env \<Rightarrow> row \<Rightarrow> jsstring" where
  "htmlPath_of e r = path_join e HTML_DUMP_FOLDER (ticker_of r @ js ''.html'')"

text \<open>The line format of the error log as the specification gives it.\<close>

definition error_line :: "jsstring \<Rightarrow> jsstring \<Rightarrow> jsstring \<Rightarrow> jsstring" where
  "error_line timestamp identifier msg =
     timestamp @ js '' | '' @ identifier @ js '' | '' @ msg @ [0x0A]"

text \<open>The navigations, the files written and the files appended to, read off a trace.\<close>

fun gotos :: "event list \<Rightarrow> jsstring list" where
  "gotos [] = []"
| "gotos (Goto u # es) = u # gotos es"
| "gotos (_ # es) = gotos es"

fun written :: "event list \<Rightarrow> jsstring list" where
  "written [] = []"
| "written (Wrote p # es) = p # written es"
| "written (_ # es) = written es"


text \<open>
  The effects of one whole iteration on a row: the navigation, then either the write of
  the row's output file or the append to the error log.
\<close>

definition entry_block :: "env \<Rightarrow> row \<Rightarrow> event list \<Rightarrow> bool" where
  "entry_block e r b =
     (b = [Goto (fullUrl_of r), Wrote (htmlPath_of e r)]
      \<or> b = [Goto (fullUrl_of r), Appended ERROR_LOG])"

text \<open>
  The scope of the target site as the specification words it: the record's domain is the
  site's domain, or one is a suffix of the other.
\<close>

definition in_target_scope :: "jsstring \<Rightarrow> bool" where
  "in_target_scope d = (d = TARGET_DOMAIN \<or> suffix TARGET_DOMAIN d \<or> suffix d TARGET_DOMAIN)"

text \<open>
  What \<^verbatim>\<open>dumpHTML\<close> does before its loop: start the browser, open a page, inject the
  cookies, make sure the output folder is there.
\<close>

definition before_loop :: "env \<Rightarrow> world \<Rightarrow> outcome" where
  "before_loop e w =
     (case launch e of
        Some err \<Rightarrow> (Some err, w)
      | None \<Rightarrow>
          (case newPage e of
             Some err \<Rightarrow> (Some err, w\<lparr>browser_open := True\<rparr>)
           | None \<Rightarrow>
               (case applyCookies e (w\<lparr>browser_open := True\<rparr>) of
                  (Some err, w2) \<Rightarrow> (Some err, w2)
                | (None, w2) \<Rightarrow>
                    (None, if \<not> existsSync w2 HTML_DUMP_FOLDER
                           then mkdirSync HTML_DUMP_FOLDER w2 else w2))))"


text \<open>
  The append to the error log that an iteration starting in \<open>w\<close> makes when its
  \<^verbatim>\<open>try\<close> block fails does not throw: the log's path is not a directory, and the append,
  which comes one effect after the start (the navigation request), has no error. And the
  same for an append at any moment.
\<close>

definition log_writable :: "env \<Rightarrow> world \<Rightarrow> bool" where
  "log_writable e w = (ERROR_LOG \<notin> dirs w \<and> append_error e (Suc (now w)) ERROR_LOG = None)"

definition log_always_writable :: "env \<Rightarrow> world \<Rightarrow> bool" where
  "log_always_writable e w = (ERROR_LOG \<notin> dirs w \<and> (\<forall>n. append_error e n ERROR_LOG = None))"

text \<open>
  The shape of the trace \<open>tr\<close> of a loop over \<open>rows\<close> started in \<open>w\<close>: the whole
  iterations of the first \<open>m\<close> rows, block after block, and then nothing more, or the
  lone navigation of row \<open>m\<close>, whose append to the error log has thrown.
\<close>

definition run_shape ::
  "env \<Rightarrow> row list \<Rightarrow> world \<Rightarrow> event list \<Rightarrow> nat \<Rightarrow> event list list \<Rightarrow> event list \<Rightarrow> bool" where
  "run_shape e rows w tr m blocks tail =
     (m \<le> length rows
      \<and> list_all2 (entry_block e) (take m rows) blocks
      \<and> tr = trace w @ concat blocks @ tail
      \<and> (tail = []
          \<or> (m < length rows \<and> has_cells (rows ! m) \<and> tail = [Goto (fullUrl_of (rows ! m))]
              \<and> \<not> log_always_writable e w)))"


section \<open>A concrete run\<close>

text \<open>
  The example of the specification: three entries, of which the second always times out.
  The browser holds one cookie of the site, one of another site, and one of a foreign
  host whose name merely contains the site's name.
\<close>

definition good_cookie :: cookie where
  "good_cookie = \<lparr>name = js ''sid'', cookie_value = js ''abc'', domain = js ''.simplywall.st'',
     path = js ''/'', httpOnly = True, secure = True\<rparr>"

definition other_cookie :: cookie where
  "other_cookie = \<lparr>name = js ''NID'', cookie_value = js ''xyz'', domain = js ''.google.com'',
     path = js ''/'', httpOnly = True, secure = True\<rparr>"

definition evil_cookie :: cookie where
  "evil_cookie = \<lparr>name = js ''t'', cookie_value = js ''1'',
     domain = js ''simplywall.st.evil.example'', path = js ''/'', httpOnly = False, secure = False\<rparr>"

definition mk_row :: "jsstring \<Rightarrow> jsstring \<Rightarrow> row" where
  "mk_row t p = [js ''tickers'' \<mapsto> t, js ''canonical_url'' \<mapsto> p]"

definition rows0 :: "row list" where
  "rows0 = [mk_row (js ''AAPL'') (js ''/stocks/aapl''), mk_row (js ''BAD'') (js ''/broken''),
            mk_row (js ''MSFT'') (js ''/stocks/msft'')]"

definition TIMEOUT :: js_error where
  "TIMEOUT = Error (js ''Navigation timeout of 60000 ms exceeded'')"

definition env0 :: env where
  "env0 = \<lparr>csv_parse = (\<lambda>_. Inr rows0),
     read_error = (\<lambda>p. Error (js ''ENOENT: no such file or directory, open '' @ p)),
     dir_error = (\<lambda>p. Error (js ''EISDIR: illegal operation on a directory, open '' @ p)),
     launch = None,
     newPage = None,
     page_goto = (\<lambda>n u. if u = BASE_URL @ js ''/broken'' then Some TIMEOUT else None),
     page_content = (\<lambda>n. Inr (js ''<html></html>'')),
     page_cookies = (\<lambda>n. Inr [good_cookie, other_cookie, evil_cookie]),
     page_setCookie = (\<lambda>_. None),
     JSON_parse = (\<lambda>_. Inr [good_cookie]),
     JSON_stringify = (\<lambda>cs. concat (map (\<lambda>c. domain c @ js '';'') cs)),
     inspect = (\<lambda>cs. concat (map (\<lambda>c. domain c @ js '';'') cs)),
     write_error = (\<lambda>n p. None),
     append_error = (\<lambda>n p. None),
     toISOString = (\<lambda>n. js ''2025-01-01T00:00:00.000Z''),
     path_join = (\<lambda>a b. a @ js ''/'' @ b),
     path_resolve_dirname = (\<lambda>p. p)\<rparr>"

definition w0 :: world where
  "w0 = \<lparr>files = [CSV_FILE \<mapsto> js ''tickers,canonical_url'', COOKIES_FILE \<mapsto> js ''[]''],
     dirs = {}, console = [], browser_open = False, jar = [], trace = [], uncaught = None\<rparr>"

text \<open>A row with padded cells, a row without its address, and a manifest holding it.\<close>

definition padded_row :: row where
  "padded_row = mk_row (js ''  AAPL '') ([0x09] @ js ''/stocks/aapl'' @ [0x0D, 0x0A])"

definition bad_row :: row where
  "bad_row = [js ''tickers'' \<mapsto> js ''TSLA'']"

definition env_gap :: env where
  "env_gap = env0\<lparr>csv_parse := (\<lambda>_. Inr [mk_row (js ''AAPL'') (js ''/stocks/aapl''), bad_row,
                                          mk_row (js ''MSFT'') (js ''/stocks/msft'')])\<rparr>"

text \<open>A run in which the name server does not answer.\<close>

definition env_down :: env where
  "env_down = env0\<lparr>page_goto :=
     (\<lambda>n u. Some (Error (js ''net::ERR_NAME_NOT_RESOLVED at '' @ u)))\<rparr>"


text \<open>A state with no file at all, and a run in which the browser does not start.\<close>

definition w_empty :: world where
  "w_empty = \<lparr>files = Map.empty, dirs = {}, console = [], browser_open = False, jar = [],
     trace = [], uncaught = None\<rparr>"




section \<open>Auxiliary facts\<close>

subsection \<open>White space and substrings\<close>

lemma rev_dropWhile_split:
  "rev (dropWhile P (rev xs)) @ rev (takeWhile P (rev xs)) = xs"
proof -
  have "rev (takeWhile P (rev xs) @ dropWhile P (rev xs)) = xs" by simp
  then show ?thesis by (simp only: rev_append)
qed

lemma trim_split: "dropWhile is_ws s = trim s @ rev (takeWhile is_ws (rev (dropWhile is_ws s)))"
  unfolding trim_def by (rule rev_dropWhile_split [symmetric])

lemma trim_decomp:
  "\<exists>a b. s = a @ trim s @ b \<and> (\<forall>c\<in>set a. is_ws c) \<and> (\<forall>c\<in>set b. is_ws c)"
proof -
  let ?a = "takeWhile is_ws s"
  let ?b = "rev (takeWhile is_ws (rev (dropWhile is_ws s)))"
  have "s = ?a @ dropWhile is_ws s" by simp
  also have "dropWhile is_ws s = trim s @ ?b" by (rule trim_split)
  finally have s: "s = ?a @ trim s @ ?b" .
  have a: "\<forall>c\<in>set ?a. is_ws c" by (auto dest: set_takeWhileD)
  have b: "\<forall>c\<in>set ?b. is_ws c" by (auto dest: set_takeWhileD)
  from s a b show ?thesis by blast
qed

lemma trim_last: assumes "trim s \<noteq> []" shows "\<not> is_ws (last (trim s))"
proof -
  let ?r = "dropWhile is_ws (rev (dropWhile is_ws s))"
  from assms have ne: "?r \<noteq> []" by (metis rev_is_Nil_conv trim_def)
  then have "\<not> is_ws (hd ?r)" by (rule hd_dropWhile)
  moreover have "last (trim s) = hd ?r" using ne by (simp add: trim_def last_rev)
  ultimately show ?thesis by simp
qed

lemma trim_hd: assumes "trim s \<noteq> []" shows "\<not> is_ws (hd (trim s))"
proof -
  let ?d = "dropWhile is_ws s"
  have "?d = [] \<Longrightarrow> trim s = []" unfolding trim_def by (simp only: rev.simps dropWhile.simps)
  with assms have "?d \<noteq> []" by blast
  then have h: "\<not> is_ws (hd ?d)" by (rule hd_dropWhile)
  have "hd ?d = hd (trim s @ rev (takeWhile is_ws (rev ?d)))"
    using trim_split [of s] by simp
  also have "\<dots> = hd (trim s)" using assms by simp
  finally show ?thesis using h by simp
qed

lemma js_includes_iff: "js_includes s t \<longleftrightarrow> (\<exists>a b. s = a @ t @ b)"
proof (induction s)
  case Nil show ?case by auto
next
  case (Cons c s)
  show ?case
  proof
    assume "js_includes (c # s) t"
    then consider "prefix t (c # s)" | "js_includes s t" by auto
    then show "\<exists>a b. c # s = a @ t @ b"
    proof cases
      case 1 then obtain b where "c # s = t @ b" by (auto simp: prefix_def)
      then have "c # s = [] @ t @ b" by simp
      then show ?thesis by blast
    next
      case 2 with Cons.IH obtain a b where "s = a @ t @ b" by blast
      then have "c # s = (c # a) @ t @ b" by simp
      then show ?thesis by blast
    qed
  next
    assume "\<exists>a b. c # s = a @ t @ b"
    then obtain a b where ab: "c # s = a @ t @ b" by blast
    show "js_includes (c # s) t"
    proof (cases a)
      case Nil with ab have "prefix t (c # s)" by (simp add: prefix_def)
      then show ?thesis by simp
    next
      case (Cons x a') with ab have "s = a' @ t @ b" by simp
      with Cons.IH have "js_includes s t" by blast
      then show ?thesis by simp
    qed
  qed
qed

subsection \<open>One iteration of the loop\<close>

lemma logError_ok:
  assumes "ERROR_LOG \<notin> dirs w" and "append_error e (now w) ERROR_LOG = None"
  shows "logError e tk m w =
     (None, w\<lparr>files := (files w)(ERROR_LOG \<mapsto> file_text w ERROR_LOG
                            @ error_line (toISOString e (now w)) tk m),
               trace := trace w @ [Appended ERROR_LOG]\<rparr>)"
  using assms by (simp add: logError_def appendFileSync_def error_line_def)

lemma logError_throws:
  assumes "\<not> (ERROR_LOG \<notin> dirs w \<and> append_error e (now w) ERROR_LOG = None)"
  shows "\<exists>err. logError e tk m w = (Some err, w)"
  using assms by (auto simp: logError_def appendFileSync_def)

lemma try_dump_ok:
  assumes "try_dump e tk u w = (None, w')"
  shows "\<exists>c. page_content e (Suc (now w)) = Inr c
     \<and> files w' = (files w)(path_join e HTML_DUMP_FOLDER (tk @ js ''.html'') \<mapsto> c)
     \<and> trace w' = trace w @ [Goto u, Wrote (path_join e HTML_DUMP_FOLDER (tk @ js ''.html''))]
     \<and> dirs w' = dirs w"
  using assms
  by (auto simp: try_dump_def writeFileSync_def console_log_def now_def Let_def
           split: option.splits sum.splits if_splits)

lemma try_dump_err:
  assumes "try_dump e tk u w = (Some err, w')"
  shows "files w' = files w \<and> trace w' = trace w @ [Goto u] \<and> dirs w' = dirs w"
  using assms
  by (auto simp: try_dump_def writeFileSync_def console_log_def now_def Let_def
           split: option.splits sum.splits if_splits)

lemma gotos_append: "gotos (xs @ ys) = gotos xs @ gotos ys"
  by (induction xs rule: gotos.induct) simp_all

lemma written_append: "written (xs @ ys) = written xs @ written ys"
  by (induction xs rule: written.induct) simp_all


lemma console_log_sel:
  "files (console_log s w) = files w" "trace (console_log s w) = trace w"
  "dirs (console_log s w) = dirs w" "now (console_log s w) = now w"
  "file_text (console_log s w) p = file_text w p"
  by (simp_all add: console_log_def now_def file_text_def)

lemma dump_row_no_cells:
  "\<not> has_cells r \<Longrightarrow> dump_row e r w = (Some (TypeError TRIM_OF_UNDEFINED), w)"
  by (auto simp: has_cells_def dump_row_def split: option.splits)

lemma dump_row_success:
  assumes "has_cells r" and "try_dump e (ticker_of r) (fullUrl_of r) w = (None, w')"
  shows "dump_row e r w = (None, w')"
  using assms
  by (auto simp: has_cells_def ticker_of_def fullUrl_of_def dump_row_def Let_def)

lemma dump_row_caught:
  assumes "has_cells r" and "try_dump e (ticker_of r) (fullUrl_of r) w = (Some err, w1)"
  shows "dump_row e r w =
     logError e (ticker_of r) (message err)
       (console_log ([0x274C] @ js '' Error dumping '' @ ticker_of r @ js '': '' @ message err) w1)"
  using assms
  by (auto simp: has_cells_def ticker_of_def fullUrl_of_def dump_row_def Let_def)

lemma dump_row_failure:
  assumes "has_cells r" and "try_dump e (ticker_of r) (fullUrl_of r) w = (Some err, w1)"
      and "log_writable e w"
  shows "\<exists>w'. dump_row e r w = (None, w')
     \<and> files w' = (files w)(ERROR_LOG \<mapsto> file_text w ERROR_LOG
                       @ error_line (toISOString e (Suc (now w))) (ticker_of r) (message err))
     \<and> trace w' = trace w @ [Goto (fullUrl_of r), Appended ERROR_LOG]
     \<and> dirs w' = dirs w"
proof -
  from try_dump_err [OF assms(2)]
  have f: "files w1 = files w" and t: "trace w1 = trace w @ [Goto (fullUrl_of r)]"
    and ds: "dirs w1 = dirs w" by simp_all
  define w2 where "w2 = console_log ([0x274C] @ js '' Error dumping '' @ ticker_of r @ js '': ''
               @ message err) w1"
  have f2: "files w2 = files w" and t2: "trace w2 = trace w @ [Goto (fullUrl_of r)]"
    and d2: "dirs w2 = dirs w"
    using f t ds by (simp_all add: w2_def console_log_sel)
  have n2: "now w2 = Suc (now w)" using t2 by (simp add: now_def)
  have ft: "file_text w2 ERROR_LOG = file_text w ERROR_LOG"
    using f2 by (simp add: file_text_def)
  have a1: "ERROR_LOG \<notin> dirs w2" using assms(3) d2 by (simp add: log_writable_def)
  have a2: "append_error e (now w2) ERROR_LOG = None"
    using assms(3) by (simp only: n2 log_writable_def)
  define w' where "w' = w2\<lparr>files := (files w2)(ERROR_LOG \<mapsto> file_text w2 ERROR_LOG
                            @ error_line (toISOString e (now w2)) (ticker_of r) (message err)),
               trace := trace w2 @ [Appended ERROR_LOG]\<rparr>"
  have "dump_row e r w = logError e (ticker_of r) (message err) w2"
    unfolding w2_def by (rule dump_row_caught [OF assms(1,2)])
  also have "\<dots> = (None, w')" unfolding w'_def by (rule logError_ok [OF a1 a2])
  finally have d: "dump_row e r w = (None, w')" .
  have 1: "files w' = (files w)(ERROR_LOG \<mapsto> file_text w ERROR_LOG
                       @ error_line (toISOString e (Suc (now w))) (ticker_of r) (message err))"
    by (simp add: w'_def f2 ft n2)
  have 2: "trace w' = trace w @ [Goto (fullUrl_of r), Appended ERROR_LOG]"
    by (simp add: w'_def t2)
  have 3: "dirs w' = dirs w" by (simp add: w'_def d2)
  from d 1 2 3 have "dump_row e r w = (None, w')
     \<and> files w' = (files w)(ERROR_LOG \<mapsto> file_text w ERROR_LOG
                       @ error_line (toISOString e (Suc (now w))) (ticker_of r) (message err))
     \<and> trace w' = trace w @ [Goto (fullUrl_of r), Appended ERROR_LOG]
     \<and> dirs w' = dirs w" by (intro conjI)
  then show ?thesis by (rule exI)
qed

lemma dump_row_unlogged:
  assumes "has_cells r" and "try_dump e (ticker_of r) (fullUrl_of r) w = (Some err, w1)"
      and "\<not> log_writable e w"
  shows "\<exists>err' w'. dump_row e r w = (Some err', w')
     \<and> files w' = files w \<and> trace w' = trace w @ [Goto (fullUrl_of r)] \<and> dirs w' = dirs w"
proof -
  from try_dump_err [OF assms(2)]
  have f: "files w1 = files w" and t: "trace w1 = trace w @ [Goto (fullUrl_of r)]"
    and ds: "dirs w1 = dirs w" by simp_all
  define w2 where "w2 = console_log ([0x274C] @ js '' Error dumping '' @ ticker_of r @ js '': ''
               @ message err) w1"
  have f2: "files w2 = files w" and t2: "trace w2 = trace w @ [Goto (fullUrl_of r)]"
    and d2: "dirs w2 = dirs w"
    using f t ds by (simp_all add: w2_def console_log_sel)
  have n2: "now w2 = Suc (now w)" using t2 by (simp add: now_def)
  have "\<not> (ERROR_LOG \<notin> dirs w2 \<and> append_error e (now w2) ERROR_LOG = None)"
    using assms(3) by (simp add: n2 d2 log_writable_def)
  from logError_throws [OF this, of "ticker_of r" "message err"] obtain err'
    where l: "logError e (ticker_of r) (message err) w2 = (Some err', w2)" by (elim exE)
  have "dump_row e r w = logError e (ticker_of r) (message err) w2"
    unfolding w2_def by (rule dump_row_caught [OF assms(1,2)])
  with l have d: "dump_row e r w = (Some err', w2)" by simp
  from d f2 t2 d2 have "dump_row e r w = (Some err', w2)
     \<and> files w2 = files w \<and> trace w2 = trace w @ [Goto (fullUrl_of r)] \<and> dirs w2 = dirs w"
    by (intro conjI)
  then show ?thesis by - (rule exI, rule exI, assumption)
qed

lemma dump_row_cases:
  assumes "has_cells r"
  shows "\<exists>eo w'. dump_row e r w = (eo, w') \<and> dirs w' = dirs w \<and>
     ((eo = None \<and> (\<exists>c. page_content e (Suc (now w)) = Inr c
           \<and> files w' = (files w)(htmlPath_of e r \<mapsto> c)
           \<and> trace w' = trace w @ [Goto (fullUrl_of r), Wrote (htmlPath_of e r)]))
      \<or> (eo = None \<and> log_writable e w
           \<and> (\<exists>err w1. try_dump e (ticker_of r) (fullUrl_of r) w = (Some err, w1)
           \<and> files w' = (files w)(ERROR_LOG \<mapsto> file_text w ERROR_LOG
                 @ error_line (toISOString e (Suc (now w))) (ticker_of r) (message err))
           \<and> trace w' = trace w @ [Goto (fullUrl_of r), Appended ERROR_LOG]))
      \<or> (eo \<noteq> None \<and> \<not> log_writable e w
           \<and> (\<exists>err w1. try_dump e (ticker_of r) (fullUrl_of r) w = (Some err, w1))
           \<and> files w' = files w \<and> trace w' = trace w @ [Goto (fullUrl_of r)]))"
  (is "\<exists>eo w'. ?P eo w'")
proof (cases "try_dump e (ticker_of r) (fullUrl_of r) w")
  case (Pair to w1)
  show ?thesis
  proof (cases to)
    case None
    with Pair have td: "try_dump e (ticker_of r) (fullUrl_of r) w = (None, w1)" by simp
    from try_dump_ok [OF td] obtain c where "page_content e (Suc (now w)) = Inr c"
      and "files w1 = (files w)(htmlPath_of e r \<mapsto> c)"
      and "trace w1 = trace w @ [Goto (fullUrl_of r), Wrote (htmlPath_of e r)]"
      and "dirs w1 = dirs w"
      unfolding htmlPath_of_def by (elim exE conjE)
    with dump_row_success [OF assms td] have "?P None w1" by simp
    then show ?thesis by - (rule exI, rule exI, assumption)
  next
    case (Some err)
    with Pair have td: "try_dump e (ticker_of r) (fullUrl_of r) w = (Some err, w1)" by simp
    then have ex: "\<exists>err w1. try_dump e (ticker_of r) (fullUrl_of r) w = (Some err, w1)"
      by - (rule exI, rule exI, assumption)
    show ?thesis
    proof (cases "log_writable e w")
      case True
      from dump_row_failure [OF assms td True] obtain w'
        where d: "dump_row e r w = (None, w')"
          and f: "files w' = (files w)(ERROR_LOG \<mapsto> file_text w ERROR_LOG
                 @ error_line (toISOString e (Suc (now w))) (ticker_of r) (message err))"
          and t: "trace w' = trace w @ [Goto (fullUrl_of r), Appended ERROR_LOG]"
          and ds: "dirs w' = dirs w" by (elim exE conjE)
      from td f t have "try_dump e (ticker_of r) (fullUrl_of r) w = (Some err, w1)
           \<and> files w' = (files w)(ERROR_LOG \<mapsto> file_text w ERROR_LOG
                 @ error_line (toISOString e (Suc (now w))) (ticker_of r) (message err))
           \<and> trace w' = trace w @ [Goto (fullUrl_of r), Appended ERROR_LOG]"
        by (intro conjI)
      then have "\<exists>err w1. try_dump e (ticker_of r) (fullUrl_of r) w = (Some err, w1)
           \<and> files w' = (files w)(ERROR_LOG \<mapsto> file_text w ERROR_LOG
                 @ error_line (toISOString e (Suc (now w))) (ticker_of r) (message err))
           \<and> trace w' = trace w @ [Goto (fullUrl_of r), Appended ERROR_LOG]"
        by - (rule exI, rule exI, assumption)
      with d ds True have "?P None w'" by simp
      then show ?thesis by - (rule exI, rule exI, assumption)
    next
      case False
      from dump_row_unlogged [OF assms td False] obtain err' w'
        where d: "dump_row e r w = (Some err', w')" and f: "files w' = files w"
          and t: "trace w' = trace w @ [Goto (fullUrl_of r)]" and ds: "dirs w' = dirs w"
        by (elim exE conjE)
      with ex False have "?P (Some err') w'" by simp
      then show ?thesis by - (rule exI, rule exI, assumption)
    qed
  qed
qed

lemma dump_row_dirs: "dirs (snd (dump_row e r w)) = dirs w"
proof (cases "has_cells r")
  case True
  from dump_row_cases [OF True, of e w] obtain eo w'
    where "dump_row e r w = (eo, w')" and "dirs w' = dirs w" by (elim exE conjE)
  then show ?thesis by simp
next
  case False
  from dump_row_no_cells [OF False, of e w] show ?thesis by simp
qed

lemma dump_row_block:
  assumes "has_cells r"
  shows "\<exists>eo w' b. dump_row e r w = (eo, w') \<and> trace w' = trace w @ b
     \<and> ((eo = None \<and> entry_block e r b)
         \<or> (eo \<noteq> None \<and> b = [Goto (fullUrl_of r)] \<and> \<not> log_writable e w))"
  (is "\<exists>eo w' b. ?Q eo w' b")
proof -
  from dump_row_cases [OF assms, of e w] obtain eo w'
    where d: "dump_row e r w = (eo, w')"
      and c: "(eo = None \<and> (\<exists>c. page_content e (Suc (now w)) = Inr c
           \<and> files w' = (files w)(htmlPath_of e r \<mapsto> c)
           \<and> trace w' = trace w @ [Goto (fullUrl_of r), Wrote (htmlPath_of e r)]))
      \<or> (eo = None \<and> log_writable e w
           \<and> (\<exists>err w1. try_dump e (ticker_of r) (fullUrl_of r) w = (Some err, w1)
           \<and> files w' = (files w)(ERROR_LOG \<mapsto> file_text w ERROR_LOG
                 @ error_line (toISOString e (Suc (now w))) (ticker_of r) (message err))
           \<and> trace w' = trace w @ [Goto (fullUrl_of r), Appended ERROR_LOG]))
      \<or> (eo \<noteq> None \<and> \<not> log_writable e w
           \<and> (\<exists>err w1. try_dump e (ticker_of r) (fullUrl_of r) w = (Some err, w1))
           \<and> files w' = files w \<and> trace w' = trace w @ [Goto (fullUrl_of r)])"
    by (elim exE conjE)
  from c consider
      (wrote) "eo = None" "trace w' = trace w @ [Goto (fullUrl_of r), Wrote (htmlPath_of e r)]"
    | (logged) "eo = None" "trace w' = trace w @ [Goto (fullUrl_of r), Appended ERROR_LOG]"
    | (threw) "eo \<noteq> None" "\<not> log_writable e w" "trace w' = trace w @ [Goto (fullUrl_of r)]"
    by (elim disjE exE conjE)
  then show ?thesis
  proof cases
    case wrote
    with d have "?Q eo w' [Goto (fullUrl_of r), Wrote (htmlPath_of e r)]"
      by (simp add: entry_block_def)
    then show ?thesis by - (rule exI, rule exI, rule exI, assumption)
  next
    case logged
    with d have "?Q eo w' [Goto (fullUrl_of r), Appended ERROR_LOG]"
      by (simp add: entry_block_def)
    then show ?thesis by - (rule exI, rule exI, rule exI, assumption)
  next
    case threw
    with d have "?Q eo w' [Goto (fullUrl_of r)]" by simp
    then show ?thesis by - (rule exI, rule exI, rule exI, assumption)
  qed
qed

subsection \<open>The loop\<close>

lemma dump_rows_append:
  "dump_rows e (xs @ ys) w =
     (case dump_rows e xs w of
        (Some err, w') \<Rightarrow> (Some err, w')
      | (None, w') \<Rightarrow> dump_rows e ys w')"
  by (induction xs arbitrary: w) (auto split: prod.splits option.splits)




lemma gotos_blocks:
  "list_all2 (entry_block e) rows blocks \<Longrightarrow> gotos (concat blocks) = map fullUrl_of rows"
  by (induction rows blocks rule: list_all2_induct)
     (auto simp: entry_block_def gotos_append)


subsection \<open>The batch\<close>

lemma dumpHTML_before_loop:
  "dumpHTML e rows w =
     (case before_loop e w of
        (Some err, ws) \<Rightarrow> (Some err, ws)
      | (None, ws) \<Rightarrow>
          (case dump_rows e rows ws of
             (Some err, w4) \<Rightarrow> (Some err, w4)
           | (None, w4) \<Rightarrow>
               (None, console_log ([0x2705] @ js '' All HTML files created'')
                        (w4\<lparr>browser_open := False\<rparr>))))"
proof (cases "launch e")
  case (Some err)
  then show ?thesis by (simp add: dumpHTML_def before_loop_def)
next
  case None
  note l = this
  show ?thesis
  proof (cases "newPage e")
    case (Some err)
    with l show ?thesis by (simp add: dumpHTML_def before_loop_def)
  next
    case None
    note n = this
    show ?thesis
    proof (cases "applyCookies e (w\<lparr>browser_open := True\<rparr>)")
      case (Pair eo w2)
      show ?thesis
      proof (cases eo)
        case (Some err)
        with l n Pair show ?thesis by (simp add: dumpHTML_def before_loop_def)
      next
        case None
        with l n Pair show ?thesis by (simp add: dumpHTML_def before_loop_def Let_def)
      qed
    qed
  qed
qed

lemma applyCookies_keeps:
  "files (snd (applyCookies e w)) = files w \<and> trace (snd (applyCookies e w)) = trace w
   \<and> dirs (snd (applyCookies e w)) = dirs w"
  by (simp add: applyCookies_def console_log_def split: option.splits sum.splits)

lemma before_loop_keeps:
  "files (snd (before_loop e w)) = files w \<and> trace (snd (before_loop e w)) = trace w"
proof -
  have a: "files (snd (applyCookies e (w\<lparr>browser_open := True\<rparr>))) = files w"
          "trace (snd (applyCookies e (w\<lparr>browser_open := True\<rparr>))) = trace w"
    using applyCookies_keeps [of e "w\<lparr>browser_open := True\<rparr>"] by simp_all
  show ?thesis
    using a by (auto simp: before_loop_def mkdirSync_def split: option.splits prod.splits)
qed

lemma before_loop_log_dir:
  "(ERROR_LOG \<in> dirs (snd (before_loop e w))) = (ERROR_LOG \<in> dirs w)"
proof (cases "launch e")
  case (Some err)
  then show ?thesis by (simp add: before_loop_def)
next
  case None
  note l = this
  show ?thesis
  proof (cases "newPage e")
    case (Some err)
    with l show ?thesis by (simp add: before_loop_def)
  next
    case None
    note n = this
    obtain eo w2 where a: "applyCookies e (w\<lparr>browser_open := True\<rparr>) = (eo, w2)"
      by (cases "applyCookies e (w\<lparr>browser_open := True\<rparr>)")
    from applyCookies_keeps [of e "w\<lparr>browser_open := True\<rparr>"] a
    have ds: "dirs w2 = dirs w" by simp
    have ne: "(ERROR_LOG = HTML_DUMP_FOLDER) = False"
      by (simp add: ERROR_LOG_def HTML_DUMP_FOLDER_def js_def)
    show ?thesis
    proof (cases eo)
      case (Some err)
      with l n a ds show ?thesis by (simp add: before_loop_def)
    next
      case None
      with l n a ds show ?thesis by (simp add: before_loop_def mkdirSync_def ne)
    qed
  qed
qed

lemma before_loop_log_always_writable:
  "log_always_writable e (snd (before_loop e w)) = log_always_writable e w"
  by (simp add: log_always_writable_def before_loop_log_dir)

lemma dump_rows_cut:
  assumes "\<not> has_cells r"
  shows "fst (dump_rows e (pre @ r # post) w) \<noteq> None
     \<and> snd (dump_rows e (pre @ r # post) w) = snd (dump_rows e pre w)"
  using assms
  by (auto simp: dump_rows_append dump_row_no_cells split: prod.splits option.splits)

lemma dumpHTML_cut:
  assumes "\<not> has_cells r"
  shows "fst (dumpHTML e (pre @ r # post) w) \<noteq> None
     \<and> files (snd (dumpHTML e (pre @ r # post) w)) = files (snd (dumpHTML e pre w))
     \<and> trace (snd (dumpHTML e (pre @ r # post) w)) = trace (snd (dumpHTML e pre w))"
proof (cases "before_loop e w")
  case (Pair eo ws)
  show ?thesis
  proof (cases eo)
    case (Some err)
    with Pair show ?thesis by (simp add: dumpHTML_before_loop)
  next
    case None
    from dump_rows_cut [OF assms, of e pre post ws]
    have c: "fst (dump_rows e (pre @ r # post) ws) \<noteq> None"
      and s: "snd (dump_rows e (pre @ r # post) ws) = snd (dump_rows e pre ws)" by simp_all
    from c obtain err w4 where d: "dump_rows e (pre @ r # post) ws = (Some err, w4)"
      by (cases "dump_rows e (pre @ r # post) ws") auto
    with s have w4: "w4 = snd (dump_rows e pre ws)" by simp
    show ?thesis
      using Pair None d w4
      by (cases "dump_rows e pre ws")
         (auto simp: dumpHTML_before_loop console_log_def split: option.splits)
  qed
qed

lemma not_log_writable:
  "\<not> log_writable e w \<Longrightarrow> \<not> log_always_writable e w"
  by (auto simp: log_writable_def log_always_writable_def)

lemma dump_rows_shape:
  "\<exists>m blocks tail. run_shape e rows w (trace (snd (dump_rows e rows w))) m blocks tail
     \<and> (fst (dump_rows e rows w) = None \<longrightarrow> m = length rows)
     \<and> (m < length rows \<and> tail = [] \<longrightarrow> \<not> has_cells (rows ! m))"
proof (induction rows arbitrary: w)
  case Nil
  have "run_shape e [] w (trace (snd (dump_rows e [] w))) 0 [] []
     \<and> (fst (dump_rows e [] w) = None \<longrightarrow> 0 = length ([]::row list))
     \<and> (0 < length ([]::row list) \<and> ([]::event list) = [] \<longrightarrow> \<not> has_cells ([] ! 0))"
    by (simp add: run_shape_def)
  then show ?case by - (rule exI, rule exI, rule exI, assumption)
next
  case (Cons r rows)
  show ?case
  proof (cases "has_cells r")
    case False
    from dump_row_no_cells [OF this, of e w]
    have d: "dump_rows e (r # rows) w = (Some (TypeError TRIM_OF_UNDEFINED), w)" by simp
    have dt: "trace (snd (dump_rows e (r # rows) w)) = trace w"
      and df: "fst (dump_rows e (r # rows) w) \<noteq> None"
      by (simp_all only: d fst_conv snd_conv) simp
    have "run_shape e (r # rows) w (trace (snd (dump_rows e (r # rows) w))) 0 [] []
       \<and> (fst (dump_rows e (r # rows) w) = None \<longrightarrow> 0 = length (r # rows))
       \<and> (0 < length (r # rows) \<and> ([]::event list) = [] \<longrightarrow> \<not> has_cells ((r # rows) ! 0))"
      using False df by (simp add: dt run_shape_def del: dump_rows.simps)
    then show ?thesis by - (rule exI, rule exI, rule exI, assumption)
  next
    case True
    from dump_row_block [OF this, of e w] obtain eo w1 b
      where d: "dump_row e r w = (eo, w1)" and t: "trace w1 = trace w @ b"
        and b: "(eo = None \<and> entry_block e r b)
           \<or> (eo \<noteq> None \<and> b = [Goto (fullUrl_of r)] \<and> \<not> log_writable e w)"
      by (elim exE conjE)
    from dump_row_dirs [of e r w] d have ds: "dirs w1 = dirs w" by simp
    show ?thesis
    proof (cases eo)
      case (Some err)
      with b have bt: "b = [Goto (fullUrl_of r)]" and nw: "\<not> log_writable e w"
        by simp_all
      have nl: "\<not> log_always_writable e w" by (rule not_log_writable [OF nw])
      have dd: "dump_rows e (r # rows) w = (Some err, w1)" using d Some by simp
      have dt: "trace (snd (dump_rows e (r # rows) w)) = trace w @ [Goto (fullUrl_of r)]"
        and df: "fst (dump_rows e (r # rows) w) \<noteq> None"
        using t bt by (simp_all only: dd fst_conv snd_conv) simp
      have "run_shape e (r # rows) w (trace (snd (dump_rows e (r # rows) w))) 0 []
              [Goto (fullUrl_of r)]
         \<and> (fst (dump_rows e (r # rows) w) = None \<longrightarrow> 0 = length (r # rows))
         \<and> (0 < length (r # rows) \<and> [Goto (fullUrl_of r)] = [] \<longrightarrow> \<not> has_cells ((r # rows) ! 0))"
        using True nl df by (simp add: dt run_shape_def del: dump_rows.simps)
      then show ?thesis by - (rule exI, rule exI, rule exI, assumption)
    next
      case None
      with b have eb: "entry_block e r b" by simp
      have eq: "dump_rows e (r # rows) w = dump_rows e rows w1" using d None by simp
      have la: "log_always_writable e w1 = log_always_writable e w"
        using ds by (simp add: log_always_writable_def)
      from Cons.IH [of w1] obtain m blocks tail
        where s: "run_shape e rows w1 (trace (snd (dump_rows e rows w1))) m blocks tail"
          and f: "fst (dump_rows e rows w1) = None \<longrightarrow> m = length rows"
          and h: "m < length rows \<and> tail = [] \<longrightarrow> \<not> has_cells (rows ! m)"
        by (elim exE conjE)
      from s have s1: "m \<le> length rows"
        and s2: "list_all2 (entry_block e) (take m rows) blocks"
        and s3: "trace (snd (dump_rows e rows w1)) = trace w1 @ concat blocks @ tail"
        and s4: "tail = [] \<or> (m < length rows \<and> has_cells (rows ! m)
                   \<and> tail = [Goto (fullUrl_of (rows ! m))] \<and> \<not> log_always_writable e w1)"
        by (simp_all add: run_shape_def)
      have r1: "Suc m \<le> length (r # rows)" using s1 by simp
      have r2: "list_all2 (entry_block e) (take (Suc m) (r # rows)) (b # blocks)"
        using s2 eb by simp
      have r3: "trace (snd (dump_rows e (r # rows) w)) = trace w @ concat (b # blocks) @ tail"
        by (simp only: eq s3 t concat.simps append_assoc)
      have r4: "tail = [] \<or> (Suc m < length (r # rows) \<and> has_cells ((r # rows) ! Suc m)
                   \<and> tail = [Goto (fullUrl_of ((r # rows) ! Suc m))] \<and> \<not> log_always_writable e w)"
        using s4 la by simp
      have 1: "run_shape e (r # rows) w (trace (snd (dump_rows e (r # rows) w))) (Suc m)
                 (b # blocks) tail"
        unfolding run_shape_def using r1 r2 r3 r4 by (intro conjI)
      have 2: "fst (dump_rows e (r # rows) w) = None \<longrightarrow> Suc m = length (r # rows)"
        using f by (simp only: eq) simp
      have 3: "Suc m < length (r # rows) \<and> tail = [] \<longrightarrow> \<not> has_cells ((r # rows) ! Suc m)"
        using h by simp
      from 1 2 3 have "run_shape e (r # rows) w (trace (snd (dump_rows e (r # rows) w))) (Suc m)
                 (b # blocks) tail
         \<and> (fst (dump_rows e (r # rows) w) = None \<longrightarrow> Suc m = length (r # rows))
         \<and> (Suc m < length (r # rows) \<and> tail = [] \<longrightarrow> \<not> has_cells ((r # rows) ! Suc m))"
        by (intro conjI)
      then show ?thesis by - (rule exI, rule exI, rule exI, assumption)
    qed
  qed
qed

lemma gotos_run_shape:
  assumes "run_shape e rows w tr m blocks tail"
  shows "gotos tr = gotos (trace w) @ map fullUrl_of (take (m + length tail) rows)"
proof -
  from assms have m: "m \<le> length rows"
    and bs: "list_all2 (entry_block e) (take m rows) blocks"
    and tr: "tr = trace w @ concat blocks @ tail"
    and tl: "tail = [] \<or> (m < length rows \<and> tail = [Goto (fullUrl_of (rows ! m))])"
    by (auto simp: run_shape_def)
  have g: "gotos tr = gotos (trace w) @ map fullUrl_of (take m rows) @ gotos tail"
    using gotos_blocks [OF bs] by (simp add: tr gotos_append)
  from tl show ?thesis
  proof
    assume "tail = []"
    with g show ?thesis by simp
  next
    assume a: "m < length rows \<and> tail = [Goto (fullUrl_of (rows ! m))]"
    then have "take (Suc m) rows = take m rows @ [rows ! m]"
      by (simp add: take_Suc_conv_app_nth)
    with g a show ?thesis by simp
  qed
qed

subsection \<open>The error log\<close>





lemma dumpHTML_effects:
  "files (snd (dumpHTML e rows w)) =
     (case before_loop e w of
        (Some err, ws) \<Rightarrow> files w
      | (None, ws) \<Rightarrow> files (snd (dump_rows e rows ws)))"
  "trace (snd (dumpHTML e rows w)) =
     (case before_loop e w of
        (Some err, ws) \<Rightarrow> trace w
      | (None, ws) \<Rightarrow> trace (snd (dump_rows e rows ws)))"
proof -
  obtain eo ws where b: "before_loop e w = (eo, ws)" by (cases "before_loop e w")
  from before_loop_keeps [of e w] b have k: "files ws = files w" "trace ws = trace w" by simp_all
  obtain eo' w4 where d: "dump_rows e rows ws = (eo', w4)" by (cases "dump_rows e rows ws")
  show "files (snd (dumpHTML e rows w)) =
     (case before_loop e w of
        (Some err, ws) \<Rightarrow> files w
      | (None, ws) \<Rightarrow> files (snd (dump_rows e rows ws)))"
    using b k d by (cases eo; cases eo') (simp_all add: dumpHTML_before_loop console_log_def)
  show "trace (snd (dumpHTML e rows w)) =
     (case before_loop e w of
        (Some err, ws) \<Rightarrow> trace w
      | (None, ws) \<Rightarrow> trace (snd (dump_rows e rows ws)))"
    using b k d by (cases eo; cases eo') (simp_all add: dumpHTML_before_loop console_log_def)
qed

lemma main_effects:
  "files (main e w) =
     (case readCSV e w of
        Resolved rows \<Rightarrow> files (snd (dumpHTML e rows w))
      | Rejected err \<Rightarrow> files w
      | Uncaught err \<Rightarrow> files w)"
  "trace (main e w) =
     (case readCSV e w of
        Resolved rows \<Rightarrow> trace (snd (dumpHTML e rows w))
      | Rejected err \<Rightarrow> trace w
      | Uncaught err \<Rightarrow> trace w)"
proof -
  show "files (main e w) =
     (case readCSV e w of
        Resolved rows \<Rightarrow> files (snd (dumpHTML e rows w))
      | Rejected err \<Rightarrow> files w
      | Uncaught err \<Rightarrow> files w)"
    by (cases "readCSV e w")
       (auto simp: main_def fatal_def console_log_def split: prod.splits option.splits)
  show "trace (main e w) =
     (case readCSV e w of
        Resolved rows \<Rightarrow> trace (snd (dumpHTML e rows w))
      | Rejected err \<Rightarrow> trace w
      | Uncaught err \<Rightarrow> trace w)"
    by (cases "readCSV e w")
       (auto simp: main_def fatal_def console_log_def split: prod.splits option.splits)
qed




subsection \<open>Rejected and completed batches\<close>



subsection \<open>The Session Capturer\<close>

lemma sessionCookies_filter:
  "sessionCookies cookies = filter (\<lambda>c. \<exists>a b. domain c = a @ TARGET_DOMAIN @ b) cookies"
  by (simp add: sessionCookies_def js_includes_iff)

lemma login_main_files:
  "files (snd (login_main e w)) = files w
   \<or> (\<exists>cookies. fst (login_main e w) = None \<and> page_cookies e (Suc (now w)) = Inr cookies
        \<and> files (snd (login_main e w))
            = (files w)(path_resolve_dirname e (js ''cookies.json'')
                          \<mapsto> JSON_stringify e (sessionCookies cookies)))"
proof (cases "launch e")
  case (Some err)
  then show ?thesis by (simp add: login_main_def)
next
  case None
  note l = this
  show ?thesis
  proof (cases "newPage e")
    case (Some err)
    with l show ?thesis by (simp add: login_main_def)
  next
    case None
    note n = this
    show ?thesis
    proof (cases "page_goto e (now w) LOGIN_URL")
      case (Some err)
      with l n show ?thesis by (simp add: login_main_def now_def)
    next
      case None
      note g = this
      show ?thesis
      proof (cases "page_cookies e (Suc (now w))")
        case (Inl err)
        with l n g show ?thesis by (simp add: login_main_def now_def console_log_def)
      next
        case (Inr cookies)
        with l n g show ?thesis
          by (simp add: login_main_def now_def console_log_def writeFileSync_def Let_def
                   split: option.splits if_splits)
      qed
    qed
  qed
qed

subsection \<open>Unfolding a concrete run\<close>

lemmas run_defs = env0_def w0_def rows0_def mk_row_def main_def dumpHTML_def dump_row_def
  try_dump_def logError_def applyCookies_def readCSV_def fatal_def console_log_def
  writeFileSync_def appendFileSync_def mkdirSync_def existsSync_def readFileSync_def
  file_text_def now_def CSV_FILE_def COOKIES_FILE_def HTML_DUMP_FOLDER_def BASE_URL_def
  ERROR_LOG_def Let_def js_def trim_def is_ws_def has_cells_def ticker_of_def fullUrl_of_def
  htmlPath_of_def error_line_def TIMEOUT_def TRIM_OF_UNDEFINED_def COOKIES_NOT_FOUND_def
  log_writable_def

section \<open>The properties\<close>







text \<open>
  Claim C3, as the code has it. The cookies the Session Capturer persists are exactly the
  cookies of the browser whose domain contains the text \<^verbatim>\<open>simplywall.st\<close> somewhere,
  in the browser's order; a cookie whose domain does not contain that text is never
  persisted. A run either leaves the files as they were or writes that list, and nothing
  else, to the artifact.
\<close>

theorem C3_persisted_cookies_contain_site_name:
  "sessionCookies cookies = filter (\<lambda>c. \<exists>a b. domain c = a @ TARGET_DOMAIN @ b) cookies
   \<and> (\<forall>c\<in>set (sessionCookies cookies). \<exists>a b. domain c = a @ TARGET_DOMAIN @ b)
   \<and> (\<forall>c\<in>set cookies. (\<nexists>a b. domain c = a @ TARGET_DOMAIN @ b) \<longrightarrow> c \<notin> set (sessionCookies cookies))
   \<and> (files (snd (login_main e w)) = files w
       \<or> (\<exists>jar. fst (login_main e w) = None \<and> page_cookies e (Suc (now w)) = Inr jar
            \<and> files (snd (login_main e w))
                = (files w)(path_resolve_dirname e (js ''cookies.json'')
                              \<mapsto> JSON_stringify e (sessionCookies jar))))"
proof -
  have 1: "sessionCookies cookies
             = filter (\<lambda>c. \<exists>a b. domain c = a @ TARGET_DOMAIN @ b) cookies"
    by (rule sessionCookies_filter)
  have 2: "\<forall>c\<in>set (sessionCookies cookies). \<exists>a b. domain c = a @ TARGET_DOMAIN @ b"
    by (simp add: 1)
  have 3: "\<forall>c\<in>set cookies. (\<nexists>a b. domain c = a @ TARGET_DOMAIN @ b)
             \<longrightarrow> c \<notin> set (sessionCookies cookies)"
    by (simp add: 1)
  from 1 2 3 login_main_files [of e w] show ?thesis by (intro conjI)
qed

theorem C3_witness:
  "sessionCookies [good_cookie, other_cookie, evil_cookie] = [good_cookie, evil_cookie]
   \<and> domain good_cookie = js ''.'' @ TARGET_DOMAIN @ []
   \<and> domain evil_cookie = [] @ TARGET_DOMAIN @ js ''.evil.example''
   \<and> other_cookie \<notin> set (sessionCookies [good_cookie, other_cookie, evil_cookie])
   \<and> fst (login_main env0 w0) = None
   \<and> files (snd (login_main env0 w0)) (js ''cookies.json'')
       = Some (js ''.simplywall.st;simplywall.st.evil.example;'')"
proof -
  have ev: "sessionCookies [good_cookie, other_cookie, evil_cookie] = [good_cookie, evil_cookie]
   \<and> domain good_cookie = js ''.'' @ TARGET_DOMAIN @ []
   \<and> domain evil_cookie = [] @ TARGET_DOMAIN @ js ''.evil.example''
   \<and> other_cookie \<notin> set (sessionCookies [good_cookie, other_cookie, evil_cookie])
   \<and> fst (login_main env0 w0) = None
   \<and> files (snd (login_main env0 w0)) (js ''cookies.json'')
       = Some (js ''.simplywall.st;simplywall.st.evil.example;'')"
    by (simp add: sessionCookies_def good_cookie_def other_cookie_def evil_cookie_def
          TARGET_DOMAIN_def LOGIN_URL_def login_main_def run_defs)
  from C3_persisted_cookies_contain_site_name [of "[good_cookie, other_cookie, evil_cookie]" env0 w0] ev
  show ?thesis by - assumption
qed

text \<open>
  Claim C3 as stated fails. A cookie of the host \<^verbatim>\<open>simplywall.st.evil.example\<close> is not
  in the scope of the site: its domain is not the site's domain, and neither is a suffix of
  the other. Its domain contains the site's name, so the filter keeps it and the run
  writes it to the artifact.
\<close>

theorem C3_counterexample:
  "evil_cookie \<in> set (sessionCookies [good_cookie, other_cookie, evil_cookie])
   \<and> \<not> in_target_scope (domain evil_cookie)
   \<and> page_cookies env0 1 = Inr [good_cookie, other_cookie, evil_cookie]
   \<and> login_main env0 w0 = (None, snd (login_main env0 w0))
   \<and> files (snd (login_main env0 w0)) (path_resolve_dirname env0 (js ''cookies.json''))
       = Some (JSON_stringify env0 [good_cookie, evil_cookie])"
  by (simp add: prod_eq_iff in_target_scope_def suffix_to_prefix sessionCookies_def
        good_cookie_def other_cookie_def evil_cookie_def TARGET_DOMAIN_def LOGIN_URL_def
        login_main_def run_defs)

text \<open>
  Claim C4. The rows are read before the browser is started: without the manifest file,
  or when the parser emits an error, the script makes no navigation at all, and otherwise
  every navigation is taken from the rows that \<^verbatim>\<open>readCSV\<close> has resolved with. The
  effects of the run are those of the first \<open>m\<close> rows, one block of effects after the
  other in the order of the manifest, each block being the navigation to the row's address
  followed by the write of its file or the append to the error log; after them comes
  nothing, or the lone navigation of the next row, in case its append to the error log has
  thrown. So the addresses navigated to are those of a prefix of the manifest, in manifest
  order. All rows are visited, each with its whole block, when the steps before the loop
  succeed, every row has its cells and the log can be appended to.
\<close>

theorem C4_manifest_order:
  "(files w CSV_FILE = None \<longrightarrow> trace (main e w) = trace w)
   \<and> (\<forall>csv err. files w CSV_FILE = Some csv \<and> csv_parse e csv = Inl err \<longrightarrow>
         trace (main e w) = trace w)
   \<and> (\<forall>csv rows. files w CSV_FILE = Some csv \<and> csv_parse e csv = Inr rows \<longrightarrow>
         (\<exists>m blocks tail. m \<le> length rows
            \<and> list_all2 (entry_block e) (take m rows) blocks
            \<and> trace (main e w) = trace w @ concat blocks @ tail
            \<and> (tail = []
                \<or> (m < length rows \<and> has_cells (rows ! m)
                    \<and> tail = [Goto (fullUrl_of (rows ! m))] \<and> \<not> log_always_writable e w))
            \<and> gotos (trace (main e w))
                = gotos (trace w) @ map fullUrl_of (take (m + length tail) rows)
            \<and> (fst (before_loop e w) = None \<and> (\<forall>r\<in>set rows. has_cells r)
                  \<and> log_always_writable e w
                 \<longrightarrow> m = length rows \<and> tail = [])))"
proof (intro conjI allI impI)
  assume "files w CSV_FILE = None"
  then show "trace (main e w) = trace w" by (simp add: main_effects readCSV_def)
next
  fix csv err
  assume "files w CSV_FILE = Some csv \<and> csv_parse e csv = Inl err"
  then show "trace (main e w) = trace w" by (simp add: main_effects readCSV_def)
next
  fix csv rows
  assume f: "files w CSV_FILE = Some csv \<and> csv_parse e csv = Inr rows"
  have tm: "trace (main e w) = trace (snd (dumpHTML e rows w))"
    using f by (simp add: main_effects readCSV_def)
  obtain eo ws where b: "before_loop e w = (eo, ws)" by (cases "before_loop e w")
  from before_loop_keeps [of e w] b have k: "trace ws = trace w" by simp
  from before_loop_log_always_writable [of e w] b
  have la: "log_always_writable e ws = log_always_writable e w" by simp
  have "\<exists>m blocks tail. run_shape e rows w (trace (main e w)) m blocks tail
          \<and> (fst (before_loop e w) = None \<and> (\<forall>r\<in>set rows. has_cells r)
                \<and> log_always_writable e w \<longrightarrow> m = length rows \<and> tail = [])"
  proof (cases eo)
    case (Some err)
    have "trace (main e w) = trace w" using b Some by (simp add: tm dumpHTML_effects)
    then have "run_shape e rows w (trace (main e w)) 0 [] []
          \<and> (fst (before_loop e w) = None \<and> (\<forall>r\<in>set rows. has_cells r)
                \<and> log_always_writable e w \<longrightarrow> 0 = length rows \<and> ([]::event list) = [])"
      using b Some by (simp add: run_shape_def)
    then show ?thesis by - (rule exI, rule exI, rule exI, assumption)
  next
    case None
    have td: "trace (main e w) = trace (snd (dump_rows e rows ws))"
      using b None by (simp add: tm dumpHTML_effects)
    from dump_rows_shape [of e rows ws] obtain m blocks tail
      where s: "run_shape e rows ws (trace (snd (dump_rows e rows ws))) m blocks tail"
        and h: "m < length rows \<and> tail = [] \<longrightarrow> \<not> has_cells (rows ! m)"
      by (elim exE conjE)
    have s': "run_shape e rows w (trace (main e w)) m blocks tail"
      using s by (simp add: run_shape_def td k la)
    have full: "m = length rows \<and> tail = []"
      if a: "fst (before_loop e w) = None \<and> (\<forall>r\<in>set rows. has_cells r)
                \<and> log_always_writable e w"
    proof -
      from a have cs: "\<forall>r\<in>set rows. has_cells r" and lw: "log_always_writable e w"
        by simp_all
      from s' lw have t0: "tail = []" by (simp add: run_shape_def)
      from s' have ml: "m \<le> length rows" by (simp add: run_shape_def)
      have "\<not> m < length rows"
      proof
        assume lt: "m < length rows"
        with h t0 have "\<not> has_cells (rows ! m)" by simp
        moreover from cs lt have "has_cells (rows ! m)" by simp
        ultimately show False by simp
      qed
      with ml t0 show ?thesis by simp
    qed
    from s' full have "run_shape e rows w (trace (main e w)) m blocks tail
          \<and> (fst (before_loop e w) = None \<and> (\<forall>r\<in>set rows. has_cells r)
                \<and> log_always_writable e w \<longrightarrow> m = length rows \<and> tail = [])"
      by simp
    then show ?thesis by - (rule exI, rule exI, rule exI, assumption)
  qed
  then obtain m blocks tail
    where s: "run_shape e rows w (trace (main e w)) m blocks tail"
      and full: "fst (before_loop e w) = None \<and> (\<forall>r\<in>set rows. has_cells r)
                \<and> log_always_writable e w \<longrightarrow> m = length rows \<and> tail = []"
    by (elim exE conjE)
  from s have 1: "m \<le> length rows"
    and 2: "list_all2 (entry_block e) (take m rows) blocks"
    and 3: "trace (main e w) = trace w @ concat blocks @ tail"
    and 4: "tail = []
                \<or> (m < length rows \<and> has_cells (rows ! m)
                    \<and> tail = [Goto (fullUrl_of (rows ! m))] \<and> \<not> log_always_writable e w)"
    by (simp_all add: run_shape_def)
  have 5: "gotos (trace (main e w))
                = gotos (trace w) @ map fullUrl_of (take (m + length tail) rows)"
    by (rule gotos_run_shape [OF s])
  from 1 2 3 4 5 full have "m \<le> length rows
            \<and> list_all2 (entry_block e) (take m rows) blocks
            \<and> trace (main e w) = trace w @ concat blocks @ tail
            \<and> (tail = []
                \<or> (m < length rows \<and> has_cells (rows ! m)
                    \<and> tail = [Goto (fullUrl_of (rows ! m))] \<and> \<not> log_always_writable e w))
            \<and> gotos (trace (main e w))
                = gotos (trace w) @ map fullUrl_of (take (m + length tail) rows)
            \<and> (fst (before_loop e w) = None \<and> (\<forall>r\<in>set rows. has_cells r)
                  \<and> log_always_writable e w
                 \<longrightarrow> m = length rows \<and> tail = [])"
    by (intro conjI)
  then show "\<exists>m blocks tail. m \<le> length rows
            \<and> list_all2 (entry_block e) (take m rows) blocks
            \<and> trace (main e w) = trace w @ concat blocks @ tail
            \<and> (tail = []
                \<or> (m < length rows \<and> has_cells (rows ! m)
                    \<and> tail = [Goto (fullUrl_of (rows ! m))] \<and> \<not> log_always_writable e w))
            \<and> gotos (trace (main e w))
                = gotos (trace w) @ map fullUrl_of (take (m + length tail) rows)
            \<and> (fst (before_loop e w) = None \<and> (\<forall>r\<in>set rows. has_cells r)
                  \<and> log_always_writable e w
                 \<longrightarrow> m = length rows \<and> tail = [])"
    by - (rule exI, rule exI, rule exI, assumption)
qed

theorem C4_witness:
  "files w0 CSV_FILE = Some (js ''tickers,canonical_url'')
   \<and> csv_parse env0 (js ''tickers,canonical_url'') = Inr rows0
   \<and> fst (before_loop env0 w0) = None
   \<and> has_cells (rows0 ! 0) \<and> has_cells (rows0 ! 1) \<and> has_cells (rows0 ! 2)
   \<and> log_always_writable env0 w0
   \<and> gotos (trace (main env0 w0))
       = [js ''https://simplywall.st/stocks/aapl'', js ''https://simplywall.st/broken'',
          js ''https://simplywall.st/stocks/msft'']
   \<and> trace (main env0 w0)
       = concat [[Goto (fullUrl_of (rows0 ! 0)), Wrote (htmlPath_of env0 (rows0 ! 0))],
                 [Goto (fullUrl_of (rows0 ! 1)), Appended ERROR_LOG],
                 [Goto (fullUrl_of (rows0 ! 2)), Wrote (htmlPath_of env0 (rows0 ! 2))]]
   \<and> trace (main env0 w_empty) = []"
proof -
  have ev: "files w0 CSV_FILE = Some (js ''tickers,canonical_url'')
   \<and> csv_parse env0 (js ''tickers,canonical_url'') = Inr rows0
   \<and> fst (before_loop env0 w0) = None
   \<and> has_cells (rows0 ! 0) \<and> has_cells (rows0 ! 1) \<and> has_cells (rows0 ! 2)
   \<and> log_always_writable env0 w0
   \<and> gotos (trace (main env0 w0))
       = [js ''https://simplywall.st/stocks/aapl'', js ''https://simplywall.st/broken'',
          js ''https://simplywall.st/stocks/msft'']
   \<and> trace (main env0 w0)
       = concat [[Goto (fullUrl_of (rows0 ! 0)), Wrote (htmlPath_of env0 (rows0 ! 0))],
                 [Goto (fullUrl_of (rows0 ! 1)), Appended ERROR_LOG],
                 [Goto (fullUrl_of (rows0 ! 2)), Wrote (htmlPath_of env0 (rows0 ! 2))]]
   \<and> trace (main env0 w_empty) = []"
    by (simp add: before_loop_def w_empty_def log_always_writable_def run_defs)
  from C4_manifest_order [of w0 env0] ev show ?thesis by - assumption
qed







text \<open>
  Claim C7. When the browser and its page have started and the navigation to the login
  page throws, whatever the error, the Session Capturer rejects with that error at once:
  the only effect is the navigation request, no file is written, and the files, a
  prior artifact among them, are as they were. More generally, a run that rejects has not
  changed any file.
\<close>

theorem C7_failed_navigation_writes_no_artifact:
  assumes "launch e = None" and "newPage e = None"
      and "page_goto e (now w) LOGIN_URL = Some err"
  shows "login_main e w
           = (Some err, w\<lparr>browser_open := True, trace := trace w @ [Goto LOGIN_URL]\<rparr>)
     \<and> files (snd (login_main e w)) = files w
     \<and> written (trace (snd (login_main e w))) = written (trace w)
     \<and> (\<forall>e'. fst (login_main e' w) \<noteq> None \<longrightarrow> files (snd (login_main e' w)) = files w)"
proof -
  have 1: "login_main e w
           = (Some err, w\<lparr>browser_open := True, trace := trace w @ [Goto LOGIN_URL]\<rparr>)"
    using assms by (simp add: login_main_def now_def)
  have 2: "files (snd (login_main e w)) = files w" by (simp add: 1)
  have 3: "written (trace (snd (login_main e w))) = written (trace w)"
    by (simp add: 1 written_append)
  have 4: "\<forall>e'. fst (login_main e' w) \<noteq> None \<longrightarrow> files (snd (login_main e' w)) = files w"
  proof (intro allI impI)
    fix e' assume "fst (login_main e' w) \<noteq> None"
    with login_main_files [of e' w] show "files (snd (login_main e' w)) = files w" by auto
  qed
  from 1 2 3 4 show ?thesis by (intro conjI)
qed

theorem C7_witness:
  "launch env_down = None \<and> newPage env_down = None
   \<and> page_goto env_down (now w0) LOGIN_URL
       = Some (Error (js ''net::ERR_NAME_NOT_RESOLVED at https://simplywall.st/login''))
   \<and> fst (login_main env_down w0)
       = Some (Error (js ''net::ERR_NAME_NOT_RESOLVED at https://simplywall.st/login''))
   \<and> files (snd (login_main env_down w0)) (js ''cookies.json'') = Some (js ''[]'')
   \<and> trace (snd (login_main env_down w0)) = [Goto (js ''https://simplywall.st/login'')]"
proof -
  have h1: "launch env_down = None" by (simp add: env_down_def env0_def)
  have h2: "newPage env_down = None" by (simp add: env_down_def env0_def)
  have h3: "page_goto env_down (now w0) LOGIN_URL
       = Some (Error (js ''net::ERR_NAME_NOT_RESOLVED at https://simplywall.st/login''))"
    by (simp add: env_down_def env0_def LOGIN_URL_def js_def)
  have ev: "fst (login_main env_down w0)
       = Some (Error (js ''net::ERR_NAME_NOT_RESOLVED at https://simplywall.st/login''))
   \<and> files (snd (login_main env_down w0)) (js ''cookies.json'') = Some (js ''[]'')
   \<and> trace (snd (login_main env_down w0)) = [Goto (js ''https://simplywall.st/login'')]"
    by (simp add: env_down_def LOGIN_URL_def login_main_def run_defs)
  from C7_failed_navigation_writes_no_artifact [OF h1 h2 h3] h1 h2 h3 ev
  show ?thesis by (intro conjI) simp_all
qed




text \<open>
  Claim C9. A row whose \<^verbatim>\<open>tickers\<close> or \<^verbatim>\<open>canonical_url\<close> cell is undefined throws
  before the \<^verbatim>\<open>try\<close> block: the iteration leaves the state untouched (no line is logged
  for the row) and the loop ends with that error, so the batch leaves the files and the
  effects of the batch cut before that row (no later entry is processed), and the script
  ends by printing the fatal error.
\<close>

theorem C9_missing_cell_aborts_batch:
  assumes "r (js ''tickers'') = None \<or> r (js ''canonical_url'') = None"
  shows "dump_row e r w = (Some (TypeError TRIM_OF_UNDEFINED), w)
     \<and> (\<forall>wk. dump_rows e pre w = (None, wk) \<longrightarrow>
           dump_rows e (pre @ r # post) w = (Some (TypeError TRIM_OF_UNDEFINED), wk))
     \<and> fst (dumpHTML e (pre @ r # post) w) \<noteq> None
     \<and> files (snd (dumpHTML e (pre @ r # post) w)) = files (snd (dumpHTML e pre w))
     \<and> trace (snd (dumpHTML e (pre @ r # post) w)) = trace (snd (dumpHTML e pre w))
     \<and> (\<forall>csv. files w CSV_FILE = Some csv \<and> csv_parse e csv = Inr (pre @ r # post) \<longrightarrow>
           (\<exists>err w'. main e w = fatal err w' \<and> files (main e w) = files (snd (dumpHTML e pre w))
              \<and> trace (main e w) = trace (snd (dumpHTML e pre w))))"
proof -
  have c: "\<not> has_cells r" using assms by (auto simp: has_cells_def)
  have 1: "dump_row e r w = (Some (TypeError TRIM_OF_UNDEFINED), w)"
    by (rule dump_row_no_cells [OF c])
  have 2: "\<forall>wk. dump_rows e pre w = (None, wk) \<longrightarrow>
           dump_rows e (pre @ r # post) w = (Some (TypeError TRIM_OF_UNDEFINED), wk)"
    by (simp add: dump_rows_append dump_row_no_cells [OF c])
  note cut = dumpHTML_cut [OF c, of e pre post w]
  have 6: "\<forall>csv. files w CSV_FILE = Some csv \<and> csv_parse e csv = Inr (pre @ r # post) \<longrightarrow>
           (\<exists>err w'. main e w = fatal err w' \<and> files (main e w) = files (snd (dumpHTML e pre w))
              \<and> trace (main e w) = trace (snd (dumpHTML e pre w)))"
  proof (intro allI impI)
    fix csv assume a: "files w CSV_FILE = Some csv \<and> csv_parse e csv = Inr (pre @ r # post)"
    from cut obtain err w' where d: "dumpHTML e (pre @ r # post) w = (Some err, w')"
      by (cases "dumpHTML e (pre @ r # post) w") auto
    have m: "main e w = fatal err w'" using a d by (simp add: main_def readCSV_def)
    have "files (main e w) = files w'" "trace (main e w) = trace w'"
      by (simp_all add: m fatal_def console_log_sel)
    with cut d m show "\<exists>err w'. main e w = fatal err w'
        \<and> files (main e w) = files (snd (dumpHTML e pre w))
        \<and> trace (main e w) = trace (snd (dumpHTML e pre w))"
      by auto
  qed
  from 1 2 cut 6 show ?thesis by (intro conjI) simp_all
qed

theorem C9_witness:
  "bad_row (js ''canonical_url'') = None
   \<and> trace (main env_gap w0)
       = [Goto (js ''https://simplywall.st/stocks/aapl''), Wrote (js ''html_dump/AAPL.html'')]
   \<and> files (main env_gap w0) (js ''errors.log'') = None
   \<and> files (main env_gap w0) (js ''html_dump/MSFT.html'') = None
   \<and> last (console (main env_gap w0))
       = [0xD83D, 0xDEA8]
         @ js '' Fatal error: Cannot read properties of undefined (reading 'trim')''"
proof -
  have h: "bad_row (js ''tickers'') = None \<or> bad_row (js ''canonical_url'') = None"
    by (simp add: bad_row_def js_def)
  have ev: "bad_row (js ''canonical_url'') = None
   \<and> trace (main env_gap w0)
       = [Goto (js ''https://simplywall.st/stocks/aapl''), Wrote (js ''html_dump/AAPL.html'')]
   \<and> files (main env_gap w0) (js ''errors.log'') = None
   \<and> files (main env_gap w0) (js ''html_dump/MSFT.html'') = None
   \<and> last (console (main env_gap w0))
       = [0xD83D, 0xDEA8]
         @ js '' Fatal error: Cannot read properties of undefined (reading 'trim')''"
    by (simp add: env_gap_def bad_row_def run_defs)
  from C9_missing_cell_aborts_batch [OF h, of env_gap w0] ev show ?thesis by (intro conjI) simp_all
qed

text \<open>
  Claim C10. The identifier and the path of a row are its two cells stripped of leading
  and trailing white space: what is stripped on either side is white space only, and
  what remains neither starts nor ends with white space. The address navigated to is the
  base address followed by the stripped path; the output file is named by the stripped
  identifier, and so is the line of the error log. (The iteration ends normally with the
  file written or the line logged; it ends with an error only when the append to the
  error log throws, and then the navigation to that address is its only effect.)
\<close>

theorem C10_cells_are_trimmed:
  assumes "r (js ''tickers'') = Some t" and "r (js ''canonical_url'') = Some p"
  shows "(\<exists>a b. t = a @ trim t @ b \<and> (\<forall>c\<in>set a. is_ws c) \<and> (\<forall>c\<in>set b. is_ws c))
     \<and> (trim t \<noteq> [] \<longrightarrow> \<not> is_ws (hd (trim t)) \<and> \<not> is_ws (last (trim t)))
     \<and> (\<exists>a b. p = a @ trim p @ b \<and> (\<forall>c\<in>set a. is_ws c) \<and> (\<forall>c\<in>set b. is_ws c))
     \<and> (trim p \<noteq> [] \<longrightarrow> \<not> is_ws (hd (trim p)) \<and> \<not> is_ws (last (trim p)))
     \<and> (\<exists>eo w'. dump_row e r w = (eo, w') \<and>
          ((eo = None
             \<and> trace w' = trace w @ [Goto (BASE_URL @ trim p),
                                 Wrote (path_join e HTML_DUMP_FOLDER (trim t @ js ''.html''))])
           \<or> (eo = None
             \<and> (\<exists>err. trace w' = trace w @ [Goto (BASE_URL @ trim p), Appended ERROR_LOG]
                 \<and> files w' ERROR_LOG = Some (file_text w ERROR_LOG
                      @ toISOString e (Suc (now w)) @ js '' | '' @ trim t @ js '' | ''
                      @ message err @ [0x0A])))
           \<or> (eo \<noteq> None \<and> \<not> log_writable e w
             \<and> trace w' = trace w @ [Goto (BASE_URL @ trim p)])))"
proof -
  have c: "has_cells r" using assms by (simp add: has_cells_def)
  have tk: "ticker_of r = trim t" using assms by (simp add: ticker_of_def)
  have u: "fullUrl_of r = BASE_URL @ trim p" using assms by (simp add: fullUrl_of_def)
  from dump_row_cases [OF c, of e w] obtain eo w'
    where d: "dump_row e r w = (eo, w')"
      and cs: "(eo = None \<and> (\<exists>c. page_content e (Suc (now w)) = Inr c
           \<and> files w' = (files w)(htmlPath_of e r \<mapsto> c)
           \<and> trace w' = trace w @ [Goto (fullUrl_of r), Wrote (htmlPath_of e r)]))
      \<or> (eo = None \<and> log_writable e w
           \<and> (\<exists>err w1. try_dump e (ticker_of r) (fullUrl_of r) w = (Some err, w1)
           \<and> files w' = (files w)(ERROR_LOG \<mapsto> file_text w ERROR_LOG
                 @ error_line (toISOString e (Suc (now w))) (ticker_of r) (message err))
           \<and> trace w' = trace w @ [Goto (fullUrl_of r), Appended ERROR_LOG]))
      \<or> (eo \<noteq> None \<and> \<not> log_writable e w
           \<and> (\<exists>err w1. try_dump e (ticker_of r) (fullUrl_of r) w = (Some err, w1))
           \<and> files w' = files w \<and> trace w' = trace w @ [Goto (fullUrl_of r)])"
    by (elim exE conjE)
  from cs consider
      (wrote) "eo = None"
        "trace w' = trace w @ [Goto (fullUrl_of r), Wrote (htmlPath_of e r)]"
    | (logged) err where "eo = None"
        "files w' = (files w)(ERROR_LOG \<mapsto> file_text w ERROR_LOG
                 @ error_line (toISOString e (Suc (now w))) (ticker_of r) (message err))"
        "trace w' = trace w @ [Goto (fullUrl_of r), Appended ERROR_LOG]"
    | (threw) "eo \<noteq> None" "\<not> log_writable e w" "trace w' = trace w @ [Goto (fullUrl_of r)]"
    by (elim disjE exE conjE)
  then have "dump_row e r w = (eo, w') \<and>
          ((eo = None
             \<and> trace w' = trace w @ [Goto (BASE_URL @ trim p),
                                 Wrote (path_join e HTML_DUMP_FOLDER (trim t @ js ''.html''))])
           \<or> (eo = None
             \<and> (\<exists>err. trace w' = trace w @ [Goto (BASE_URL @ trim p), Appended ERROR_LOG]
                 \<and> files w' ERROR_LOG = Some (file_text w ERROR_LOG
                      @ toISOString e (Suc (now w)) @ js '' | '' @ trim t @ js '' | ''
                      @ message err @ [0x0A])))
           \<or> (eo \<noteq> None \<and> \<not> log_writable e w
             \<and> trace w' = trace w @ [Goto (BASE_URL @ trim p)]))"
  proof cases
    case wrote
    with d show ?thesis by (simp add: htmlPath_of_def tk u)
  next
    case logged
    from logged(2,3) have "trace w' = trace w @ [Goto (BASE_URL @ trim p), Appended ERROR_LOG]
                 \<and> files w' ERROR_LOG = Some (file_text w ERROR_LOG
                      @ toISOString e (Suc (now w)) @ js '' | '' @ trim t @ js '' | ''
                      @ message err @ [0x0A])"
      by (simp add: tk u error_line_def)
    then have "\<exists>err. trace w' = trace w @ [Goto (BASE_URL @ trim p), Appended ERROR_LOG]
                 \<and> files w' ERROR_LOG = Some (file_text w ERROR_LOG
                      @ toISOString e (Suc (now w)) @ js '' | '' @ trim t @ js '' | ''
                      @ message err @ [0x0A])"
      by (rule exI)
    with logged(1) d show ?thesis by simp
  next
    case threw
    with d show ?thesis by (simp add: u)
  qed
  then have 5: "\<exists>eo w'. dump_row e r w = (eo, w') \<and>
          ((eo = None
             \<and> trace w' = trace w @ [Goto (BASE_URL @ trim p),
                                 Wrote (path_join e HTML_DUMP_FOLDER (trim t @ js ''.html''))])
           \<or> (eo = None
             \<and> (\<exists>err. trace w' = trace w @ [Goto (BASE_URL @ trim p), Appended ERROR_LOG]
                 \<and> files w' ERROR_LOG = Some (file_text w ERROR_LOG
                      @ toISOString e (Suc (now w)) @ js '' | '' @ trim t @ js '' | ''
                      @ message err @ [0x0A])))
           \<or> (eo \<noteq> None \<and> \<not> log_writable e w
             \<and> trace w' = trace w @ [Goto (BASE_URL @ trim p)]))"
    by - (rule exI, rule exI, assumption)
  from trim_decomp [of t] trim_hd [of t] trim_last [of t]
       trim_decomp [of p] trim_hd [of p] trim_last [of p] 5
  show ?thesis by (intro conjI impI) assumption+
qed

theorem C10_witness:
  "padded_row (js ''tickers'') = Some (js ''  AAPL '')
   \<and> padded_row (js ''canonical_url'') = Some ([0x09] @ js ''/stocks/aapl'' @ [0x0D, 0x0A])
   \<and> trim (js ''  AAPL '') = js ''AAPL''
   \<and> trim ([0x09] @ js ''/stocks/aapl'' @ [0x0D, 0x0A]) = js ''/stocks/aapl''
   \<and> trace (snd (dump_row env0 padded_row w0))
       = [Goto (js ''https://simplywall.st/stocks/aapl''), Wrote (js ''html_dump/AAPL.html'')]"
proof -
  have h1: "padded_row (js ''tickers'') = Some (js ''  AAPL '')"
    by (simp add: padded_row_def mk_row_def js_def)
  have h2: "padded_row (js ''canonical_url'') = Some ([0x09] @ js ''/stocks/aapl'' @ [0x0D, 0x0A])"
    by (simp add: padded_row_def mk_row_def js_def)
  have t1: "trim (js ''  AAPL '') = js ''AAPL''" by (simp add: js_def trim_def is_ws_def)
  have t2: "trim ([0x09] @ js ''/stocks/aapl'' @ [0x0D, 0x0A]) = js ''/stocks/aapl''"
    by (simp add: js_def trim_def is_ws_def)
  have ne: "Appended ERROR_LOG \<noteq> Wrote (js ''html_dump/AAPL.html'')" by simp
  have ev: "trace (snd (dump_row env0 padded_row w0))
       = [Goto (js ''https://simplywall.st/stocks/aapl''), Wrote (js ''html_dump/AAPL.html'')]"
    by (simp add: padded_row_def run_defs)
  from C10_cells_are_trimmed [OF h1 h2, of env0 w0] h1 h2 t1 t2 ev
  show ?thesis by (intro conjI)
qed

end
